theory Spec2Isabelle
  imports Complex_Main "HOL-Library.Word" "HOL-Library.Multiset"
begin

section \<open>Session based load balancing: the embedding\<close>

text \<open>
  The theory embeds the session policy of the \<open>loadbalance\<close> plugin: the host registry and
  poller of the session manager (\<open>SessionManager\<close>, \<open>Host\<close>, \<open>Scrape\<close>, \<open>ScrapeLoop\<close>,
  \<open>GetIPs\<close>), the setup-time parser (\<open>parseSession\<close>, \<open>checkSessionInputs\<close>) and the query
  handler (\<open>ServeSession\<close>). Every definition follows one Go function; what the Go code
  takes from its environment (the clock, the HTTP response, the order in which \<open>range\<close>
  walks a map, the random source, \<open>sort.Sort\<close>) is an explicit argument.
\<close>

subsection \<open>Results of fallible code\<close>

text \<open>
  A Go function of the plugin either returns, returns an \<open>error\<close>, or panics (an index out
  of range, a nil pointer dereference). \<open>Inl Panic\<close> is the panic, \<open>Inl (Error msg)\<close> the
  returned error and \<open>Inr v\<close> the normal return.
\<close>

datatype failure = Panic | Error string

type_synonym 'a result = "failure + 'a"

subsection \<open>Floating point values\<close>

text \<open>
  A Go \<open>float64\<close> or \<open>float32\<close> is a finite binary fraction, an infinity or a NaN. The sign
  of zero and the payload of a NaN are not modelled: no operation of the plugin can tell
  them apart. \<open>Fin r\<close> is the finite value \<open>r\<close>.
\<close>

datatype fp = Fin rat | PInf | NInf | NaN

type_synonym float64 = fp
type_synonym float32 = fp

subsection \<open>The Prometheus data model, as far as \<open>getMetricValue\<close> reads it\<close>

text \<open>
  \<open>dto.MetricFamily\<close> and \<open>dto.Metric\<close> are protocol buffer messages; the plugin reads
  them through their accessors only, and the records are named after these. \<open>GetType\<close>
  is \<open>COUNTER\<close> for a family whose type is not set. \<open>GetGauge m = None\<close> stands for a sample
  whose \<open>Gauge\<close> message (or the \<open>Value\<close> in it) is nil, so that \<open>*gauge.Value\<close> dereferences
  a nil pointer; \<open>GetCounter\<close> likewise.
\<close>

datatype MetricType = COUNTER | GAUGE | SUMMARY | UNTYPED | HISTOGRAM | GAUGE_HISTOGRAM

record Metric =
  GetGauge :: "float64 option"
  GetCounter :: "float64 option"

record MetricFamily =
  GetType :: MetricType
  GetMetric :: "Metric list"

text \<open>
  \<^verbatim>\<open>
  func getMetricValue(mf *dto.MetricFamily) (float64, error) {
      switch {
      case mf.GetType() == dto.MetricType_GAUGE:
          gauge := mf.GetMetric()[0].GetGauge()
          return *gauge.Value, nil
      case mf.GetType() == dto.MetricType_COUNTER:
          counter := mf.GetMetric()[0].GetCounter()
          return *counter.Value, nil
      default:
          return 0, fmt.Errorf("Unsupported metric type: %v", mf)
      }
  }
  \<close>
  The index \<open>[0]\<close> panics on an empty slice, the dereference on a nil pointer.
\<close>

definition getMetricValue :: "MetricFamily \<Rightarrow> float64 result" where
  "getMetricValue mf =
     (if GetType mf = GAUGE then
        (case GetMetric mf of
           [] \<Rightarrow> Inl Panic
         | m # _ \<Rightarrow> (case GetGauge m of None \<Rightarrow> Inl Panic | Some v \<Rightarrow> Inr v))
      else if GetType mf = COUNTER then
        (case GetMetric mf of
           [] \<Rightarrow> Inl Panic
         | m # _ \<Rightarrow> (case GetCounter m of None \<Rightarrow> Inl Panic | Some v \<Rightarrow> Inr v))
      else Inl (Error ''Unsupported metric type''))"

text \<open>The value a sample carries for a family of the given type.\<close>

definition sampleValue :: "MetricType \<Rightarrow> Metric \<Rightarrow> float64 option" where
  "sampleValue t m = (if t = GAUGE then GetGauge m else if t = COUNTER then GetCounter m else None)"

subsection \<open>Rounding to \<open>float32\<close>\<close>

text \<open>
  The conversion \<open>float32(value)\<close> and the \<open>float32\<close> addition round to the nearest
  \<open>float32\<close>, ties to even. A finite \<open>float32\<close> is a multiple \<open>n * 2^sh / 2^149\<close> of a power
  of two with \<open>n < 2^24\<close>; \<open>2^-149\<close> is the smallest positive one and everything from
  \<open>2^128\<close> on is an infinity. \<open>bitlen n\<close> is the number of binary digits of \<open>n\<close>, \<open>rhe\<close>
  rounds to the nearest integer, ties to even, and \<open>roundUnits s\<close> rounds \<open>s \<ge> 0\<close>, a number
  of units of \<open>2^-149\<close>, to 24 significant binary digits.
\<close>

function bitlen :: "int \<Rightarrow> nat" where
  "bitlen n = (if n \<le> 0 then 0 else Suc (bitlen (n div 2)))"
  by pat_completeness auto
termination
  by (relation "measure nat") auto

declare bitlen.simps [simp del]

definition rhe :: "rat \<Rightarrow> int" where
  "rhe x = (let f = \<lfloor>x\<rfloor>; d = x - of_int f in
     if d < 1 / 2 then f else if 1 / 2 < d then f + 1 else if even f then f else f + 1)"

definition roundUnits :: "rat \<Rightarrow> int" where
  "roundUnits s = (let sh = bitlen \<lfloor>s\<rfloor> - 24 in rhe (s / 2 ^ sh) * 2 ^ sh)"

definition roundMag :: "rat \<Rightarrow> rat" where
  "roundMag a = of_int (roundUnits (a * 2 ^ 149)) / 2 ^ 149"

definition round32 :: "rat \<Rightarrow> float32" where
  "round32 r =
     (if r < 0 then (let m = roundMag (- r) in if 2 ^ 128 \<le> m then NInf else Fin (- m))
      else (let m = roundMag r in if 2 ^ 128 \<le> m then PInf else Fin m))"

text \<open>\<open>float32(v)\<close> for a \<open>float64\<close> \<open>v\<close>.\<close>

fun toFloat32 :: "float64 \<Rightarrow> float32" where
  "toFloat32 (Fin r) = round32 r"
| "toFloat32 PInf = PInf"
| "toFloat32 NInf = NInf"
| "toFloat32 NaN = NaN"

text \<open>\<open>x++\<close> on a \<open>float32\<close>: the \<open>float32\<close> sum of \<open>x\<close> and \<open>1\<close>.\<close>

fun inc32 :: "float32 \<Rightarrow> float32" where
  "inc32 (Fin r) = round32 (r + 1)"
| "inc32 PInf = PInf"
| "inc32 NInf = NInf"
| "inc32 NaN = NaN"

text \<open>\<open>x < y\<close> on floating point values: false whenever an operand is a NaN.\<close>

fun less32 :: "fp \<Rightarrow> fp \<Rightarrow> bool" where
  "less32 (Fin a) (Fin b) = (a < b)"
| "less32 (Fin a) PInf = True"
| "less32 (Fin a) NInf = False"
| "less32 (Fin a) NaN = False"
| "less32 PInf y = False"
| "less32 NInf (Fin b) = True"
| "less32 NInf PInf = True"
| "less32 NInf NInf = False"
| "less32 NInf NaN = False"
| "less32 NaN y = False"


text \<open>The values a \<open>float32\<close> variable can hold: those that rounding leaves alone.\<close>

definition isFloat32 :: "fp \<Rightarrow> bool" where
  "isFloat32 x = (case x of Fin r \<Rightarrow> round32 r = Fin r | _ \<Rightarrow> True)"

subsection \<open>Addresses and time\<close>

text \<open>
  A \<open>netip.Addr\<close> is given by its bytes (\<open>AsSlice\<close>: 4 for IPv4, 16 for IPv6) and its zone;
  a \<open>net.IP\<close> is a byte slice. A \<open>time.Time\<close> is a number of nanoseconds since the Unix
  epoch, so that \<open>time.Unix(0, 0)\<close> is \<open>0\<close>; a \<open>time.Duration\<close> is an \<open>int64\<close> of nanoseconds,
  and \<open>time.Since\<close> saturates at its bounds. \<open>Seconds\<close> and \<open>float64(interval)\<close> are computed
  exactly: the rounding of these \<open>float64\<close> values is not modelled. One clock is read by \<open>time.Now\<close> and
  \<open>time.Since\<close>.
\<close>

datatype Addr = Addr (AsSlice: "8 word list") (Zone: string)

type_synonym IP = "8 word list"

type_synonym Time = int

type_synonym Duration = int

definition Unix00 :: Time where
  "Unix00 = 0"

definition Since :: "Time \<Rightarrow> Time \<Rightarrow> Duration" where
  "Since now t = max (- (2 ^ 63)) (min (2 ^ 63 - 1) (now - t))"

definition Seconds :: "Duration \<Rightarrow> rat" where
  "Seconds d = of_int d / 10 ^ 9"

subsection \<open>\<open>Host\<close> and \<open>SessionManager\<close>\<close>

text \<open>
  \<^verbatim>\<open>
  type Host struct {
      ip netip.Addr
      port uint16
      base    float32
      updated time.Time
      estimate float32
  }
  type SessionManager struct {
      scrapeMetric          string
      scrapePort            uint16
      scrapeTimeoutSeconds  uint
      scrapeIntervalSeconds uint
      hosts                 map[netip.Addr]*Host
      active                map[netip.Addr]*Host
  }
  \<close>
  Both maps hold pointers to \<open>Host\<close> objects, and the poller and the selector write the
  object a pointer refers to. A pointer is a \<open>ref\<close>; \<open>store\<close> gives the object at each
  \<open>ref\<close> and \<open>nextRef\<close> is the first \<open>ref\<close> not yet allocated. \<open>pollers\<close> lists the hosts
  for which \<open>Start\<close> has launched a \<open>ScrapeLoop\<close> goroutine. \<open>uint\<close> is 64 bits wide.
\<close>

type_synonym ref = nat

record Host =
  ip :: Addr
  port :: "16 word"
  base :: float32
  updated :: Time
  estimate :: float32

record SessionManager =
  scrapeMetric :: string
  scrapePort :: "16 word"
  scrapeTimeoutSeconds :: "64 word"
  scrapeIntervalSeconds :: "64 word"
  hosts :: "Addr \<rightharpoonup> ref"
  active :: "Addr \<rightharpoonup> ref"
  store :: "ref \<Rightarrow> Host"
  nextRef :: ref
  pollers :: "ref list"

definition DefaultScrapeSeconds :: "64 word" where
  "DefaultScrapeSeconds = 15"

definition DefaultTimeoutSeconds :: "64 word" where
  "DefaultTimeoutSeconds = 30"

text \<open>The content of a \<open>ref\<close> that holds no \<open>Host\<close> yet.\<close>

definition noHost :: Host where
  "noHost = \<lparr>ip = Addr [] [], port = 0, base = Fin 0, updated = 0, estimate = Fin 0\<rparr>"

text \<open>
  \<^verbatim>\<open>
  func (host *Host) Update(value float32) {
      host.base = value
      host.estimate = value
      host.updated = time.Now()
  }
  func (host *Host) Active(interval uint) bool {
      return time.Since(host.updated).Seconds() < float64(interval)
  }
  \<close>
  The first argument is the clock's reading.
\<close>

definition Update :: "Time \<Rightarrow> float32 \<Rightarrow> Host \<Rightarrow> Host" where
  "Update now v host = host\<lparr>base := v, estimate := v, updated := now\<rparr>"

definition Active :: "Time \<Rightarrow> 64 word \<Rightarrow> Host \<Rightarrow> bool" where
  "Active now interval host \<longleftrightarrow> Seconds (Since now (updated host)) < of_nat (unat interval)"

definition NewSessionManager :: SessionManager where
  "NewSessionManager =
     \<lparr>scrapeMetric = [], scrapePort = 0,
      scrapeTimeoutSeconds = DefaultTimeoutSeconds,
      scrapeIntervalSeconds = DefaultScrapeSeconds,
      hosts = Map.empty, active = Map.empty,
      store = (\<lambda>_. noHost), nextRef = 0, pollers = []\<rparr>"

text \<open>
  \<^verbatim>\<open>
  func (sm *SessionManager) Add(addr netip.Addr) {
      if _, ok := sm.hosts[addr]; ok {
          return
      }
      host := &Host{ip: addr, port: 0, updated: time.Unix(0, 0), base: 0, estimate: 0}
      sm.hosts[addr] = host
  }
  \<close>
\<close>

definition Add :: "Addr \<Rightarrow> SessionManager \<Rightarrow> SessionManager" where
  "Add addr sm =
     (case hosts sm addr of
        Some _ \<Rightarrow> sm
      | None \<Rightarrow>
          sm\<lparr>store := (store sm)(nextRef sm :=
                 \<lparr>ip = addr, port = 0, base = Fin 0, updated = Unix00, estimate = Fin 0\<rparr>),
             hosts := (hosts sm)(addr \<mapsto> nextRef sm),
             nextRef := Suc (nextRef sm)\<rparr>)"

text \<open>
  \<open>for k, v := range m\<close> walks the entries of a map in an order the runtime chooses anew
  for every loop. The order is an argument of each function with such a loop: a list of
  the map's entries, each key once.
\<close>

definition rangeOf :: "('k \<rightharpoonup> 'v) \<Rightarrow> ('k \<times> 'v) list \<Rightarrow> bool" where
  "rangeOf m es \<longleftrightarrow> distinct (map fst es) \<and> map_of es = m"

text \<open>
  \<^verbatim>\<open>
  func (sm *SessionManager) Start() {
      for _, host := range sm.hosts {
          host.port = sm.scrapePort
          go sm.ScrapeLoop(host)
      }
  }
  \<close>
\<close>

fun Start :: "(Addr \<times> ref) list \<Rightarrow> SessionManager \<Rightarrow> SessionManager" where
  "Start [] sm = sm"
| "Start ((a, host) # es) sm =
     Start es (sm\<lparr>store := (store sm)(host := (store sm host)\<lparr>port := scrapePort sm\<rparr>),
                  pollers := pollers sm @ [host]\<rparr>)"

subsection \<open>The poller: \<open>Scrape\<close> and \<open>ScrapeLoop\<close>\<close>

text \<open>
  \<open>client.Get\<close> either fails or gives a response, and \<open>TextToMetricFamilies\<close> turns the
  body into a map from metric names to families together with an error. \<open>GetOK fams err\<close>
  carries the families in the order in which \<open>range\<close> walks that map, and whether the
  parser reported an error. (The parser of \<open>prometheus/common\<close> returns the families it has
  read so far together with the error when it stops at a malformed line.)

  \<^verbatim>\<open>
  func (sm *SessionManager) Scrape(host *Host) {
      url := fmt.Sprintf("http://%s:%d/metrics", host.ip, host.port)
      client := http.Client{Timeout: 10 * time.Second}
      resp, err := client.Get(url)
      if err == nil {
          var parser expfmt.TextParser
          metrics, err := parser.TextToMetricFamilies(resp.Body)
          if err != nil {
              log.Errorf("Failed to parse metrics. err: %v", err)
          }
          for k, mf := range metrics {
              if k == sm.scrapeMetric {
                  value, err := getMetricValue(mf)
                  if err != nil {
                      log.Errorf("%v", err)
                      continue
                  }
                  host.Update(float32(value))
              }
          }
      } else {
          log.Errorf("Failed to get metrics. host: %s err: %v", host.ip, err)
      }
  }
  \<close>
  \<open>scrapeFamilies\<close> is the \<open>for\<close> loop; \<open>now\<close> is what \<open>time.Now\<close> gives inside \<open>Update\<close>.
\<close>

datatype HttpResult = GetFailed | GetOK "(string \<times> MetricFamily) list" bool

fun scrapeFamilies ::
  "Time \<Rightarrow> ref \<Rightarrow> (string \<times> MetricFamily) list \<Rightarrow> SessionManager \<Rightarrow> SessionManager result" where
  "scrapeFamilies now host [] sm = Inr sm"
| "scrapeFamilies now host ((k, mf) # rest) sm =
     (if k = scrapeMetric sm then
        (case getMetricValue mf of
           Inl Panic \<Rightarrow> Inl Panic
         | Inl (Error e) \<Rightarrow> scrapeFamilies now host rest sm
         | Inr v \<Rightarrow>
             scrapeFamilies now host rest
               (sm\<lparr>store := (store sm)(host := Update now (toFloat32 v) (store sm host))\<rparr>))
      else scrapeFamilies now host rest sm)"

definition Scrape :: "HttpResult \<Rightarrow> Time \<Rightarrow> ref \<Rightarrow> SessionManager \<Rightarrow> SessionManager result" where
  "Scrape resp now host sm =
     (case resp of
        GetFailed \<Rightarrow> Inr sm
      | GetOK metrics parseErr \<Rightarrow> scrapeFamilies now host metrics sm)"

text \<open>
  \<^verbatim>\<open>
  func (sm *SessionManager) ScrapeLoop(host *Host) {
      for {
          start := time.Now()
          sm.Scrape(host)
          if host.Active(sm.scrapeTimeoutSeconds) {
              sm.active[host.ip] = host
          } else {
              delete(sm.active, host.ip)
          }
          timeLeft := float64(sm.scrapeIntervalSeconds) - time.Since(start).Seconds()
          time.Sleep(time.Duration(timeLeft) * time.Second)
      }
  }
  \<close>
  A \<open>Tick\<close> is what one iteration takes from its environment: the response to the
  request, the clock's reading in \<open>Update\<close> and the clock's reading in \<open>Active\<close>.
  \<open>ScrapeLoopBody\<close> is one iteration; the sleep changes no state. The loop has no exit:
  \<open>ScrapeLoop ticks\<close> runs as many iterations as there are ticks and gives the state
  reached, or the panic that ended the goroutine.
\<close>

record Tick =
  response :: HttpResult
  updateTime :: Time
  checkTime :: Time

definition ScrapeLoopBody :: "Tick \<Rightarrow> ref \<Rightarrow> SessionManager \<Rightarrow> SessionManager result" where
  "ScrapeLoopBody tick host sm =
     (case Scrape (response tick) (updateTime tick) host sm of
        Inl f \<Rightarrow> Inl f
      | Inr sm1 \<Rightarrow>
          Inr (if Active (checkTime tick) (scrapeTimeoutSeconds sm1) (store sm1 host)
               then sm1\<lparr>active := (active sm1)(ip (store sm1 host) \<mapsto> host)\<rparr>
               else sm1\<lparr>active := (active sm1)(ip (store sm1 host) := None)\<rparr>))"

fun ScrapeLoop :: "Tick list \<Rightarrow> ref \<Rightarrow> SessionManager \<Rightarrow> SessionManager result" where
  "ScrapeLoop [] host sm = Inr sm"
| "ScrapeLoop (tick # ticks) host sm =
     (case ScrapeLoopBody tick host sm of
        Inl f \<Rightarrow> Inl f
      | Inr sm1 \<Rightarrow> ScrapeLoop ticks host sm1)"

subsection \<open>The selector: \<open>GetIPs\<close>\<close>

text \<open>
  \<open>rand.Shuffle(n, swap)\<close> runs \<open>for i := n - 1; i > 0; i-- { j := r.int31n(i + 1); swap(i, j) }\<close>
  on the generator seeded from the clock. \<open>rnd i\<close> is the number the generator gives at
  index \<open>i\<close>; \<open>int31n (i + 1)\<close> brings it into \<open>0 .. i\<close>. \<open>swap\<close> is the closure
  \<open>func(i, j int) { ips[i], ips[j] = ips[j], ips[i] }\<close>.
\<close>

definition swap :: "nat \<Rightarrow> nat \<Rightarrow> 'a list \<Rightarrow> 'a list" where
  "swap i j xs = xs[i := xs ! j, j := xs ! i]"

fun shuffleLoop :: "(nat \<Rightarrow> nat) \<Rightarrow> nat \<Rightarrow> 'a list \<Rightarrow> 'a list" where
  "shuffleLoop rnd 0 xs = xs"
| "shuffleLoop rnd (Suc i) xs = shuffleLoop rnd i (swap (Suc i) (rnd (Suc i) mod (Suc i + 1)) xs)"

definition Shuffle :: "(nat \<Rightarrow> nat) \<Rightarrow> 'a list \<Rightarrow> 'a list" where
  "Shuffle rnd xs = shuffleLoop rnd (length xs - 1) xs"

text \<open>
  \<^verbatim>\<open>
  func (s byEstimated) Less(i, j int) bool {
      return s[i].estimate < s[j].estimate
  }

  func (sm *SessionManager) GetIPs() []net.IP {
      active := []*Host{}
      for _, host := range sm.active {
          active = append(active, host)
      }
      if len(active) == 0 {
          ips := []net.IP{}
          for ip, _ := range sm.hosts {
              ips = append(ips, net.IP(ip.AsSlice()))
          }
          rand.Seed(time.Now().UnixNano())
          rand.Shuffle(len(ips), func(i, j int) { ips[i], ips[j] = ips[j], ips[i] })
          return ips
      }
      ips := []net.IP{}
      sort.Sort(byEstimated(active))
      for _, host := range active {
          ips = append(ips, net.IP(host.ip.AsSlice()))
      }
      active[0].estimate++
      return ips
  }
  \<close>
  \<open>srt\<close> is \<open>sort.Sort\<close>, applied to the order \<open>Less\<close> and the slice; \<open>activeRange\<close> and
  \<open>hostsRange\<close> are the orders in which the two \<open>range\<close> loops walk \<open>sm.active\<close> and
  \<open>sm.hosts\<close>. The result is the slice returned and the state left behind.
\<close>

type_synonym sortFn = "(ref \<Rightarrow> ref \<Rightarrow> bool) \<Rightarrow> ref list \<Rightarrow> ref list"

definition byEstimatedLess :: "SessionManager \<Rightarrow> ref \<Rightarrow> ref \<Rightarrow> bool" where
  "byEstimatedLess sm i j = less32 (estimate (store sm i)) (estimate (store sm j))"

definition GetIPs ::
  "sortFn \<Rightarrow> (nat \<Rightarrow> nat) \<Rightarrow> (Addr \<times> ref) list \<Rightarrow> (Addr \<times> ref) list \<Rightarrow> SessionManager
     \<Rightarrow> IP list \<times> SessionManager" where
  "GetIPs srt rnd activeRange hostsRange sm =
     (let active = map snd activeRange in
      if length active = 0 then
        (Shuffle rnd (map (\<lambda>(a, _). AsSlice a) hostsRange), sm)
      else
        (let sorted = srt (byEstimatedLess sm) active;
             ips = map (\<lambda>host. AsSlice (ip (store sm host))) sorted;
             first = sorted ! 0
         in (ips, sm\<lparr>store := (store sm)(first :=
                      (store sm first)\<lparr>estimate := inc32 (estimate (store sm first))\<rparr>)\<rparr>)))"

text \<open>
  What \<open>sort.Sort\<close> promises: it only swaps elements, so the result is a rearrangement of
  the slice; and when \<open>Less\<close> is a strict weak order on the elements, no element of the
  result is less than one before it. The sort is not stable.
\<close>

definition strictWeakOrderOn :: "'a set \<Rightarrow> ('a \<Rightarrow> 'a \<Rightarrow> bool) \<Rightarrow> bool" where
  "strictWeakOrderOn A lt \<longleftrightarrow>
     (\<forall>x\<in>A. \<not> lt x x) \<and>
     (\<forall>x\<in>A. \<forall>y\<in>A. \<forall>z\<in>A. lt x y \<and> lt y z \<longrightarrow> lt x z) \<and>
     (\<forall>x\<in>A. \<forall>y\<in>A. \<forall>z\<in>A. \<not> lt x y \<and> \<not> lt y z \<longrightarrow> \<not> lt x z)"

definition sortContract :: "sortFn \<Rightarrow> bool" where
  "sortContract srt \<longleftrightarrow>
     (\<forall>lt xs. mset (srt lt xs) = mset xs) \<and>
     (\<forall>lt xs. strictWeakOrderOn (set xs) lt \<longrightarrow>
        sorted_wrt (\<lambda>a b. \<not> lt b a) (srt lt xs))"

text \<open>An insertion sort, as an instance of the contract.\<close>

fun insertBy :: "('a \<Rightarrow> 'a \<Rightarrow> bool) \<Rightarrow> 'a \<Rightarrow> 'a list \<Rightarrow> 'a list" where
  "insertBy lt x [] = [x]"
| "insertBy lt x (y # ys) = (if lt x y then x # y # ys else y # insertBy lt x ys)"

fun insertionSort :: "('a \<Rightarrow> 'a \<Rightarrow> bool) \<Rightarrow> 'a list \<Rightarrow> 'a list" where
  "insertionSort lt [] = []"
| "insertionSort lt (x # xs) = insertBy lt x (insertionSort lt xs)"

text \<open>
  The poller files a host in \<open>sm.active\<close> under the host's own address
  (\<open>sm.active[host.ip] = host\<close>): every entry of the active map leads to the host whose
  \<open>ip\<close> is the key.
\<close>

definition activeKeyed :: "SessionManager \<Rightarrow> bool" where
  "activeKeyed sm \<longleftrightarrow> (\<forall>a r. active sm a = Some r \<longrightarrow> ip (store sm r) = a)"

subsection \<open>The session load balancer and the query handler\<close>

text \<open>
  \<^verbatim>\<open>
  type SessionLoadBalancer struct {
      hostname string
      domain   string
      manager  *SessionManager
  }
  func NewSessionLoadBalancer() *SessionLoadBalancer {
      return &SessionLoadBalancer{hostname: "", domain: "", manager: NewSessionManager()}
  }
  func split(fqdn string) (hostname, domain string) {
      names := strings.Split(strings.TrimSuffix(fqdn, "."), ".")
      if len(names) > 0 {
          hostname = names[0]
      }
      if len(names) > 1 {
          domain = strings.Join(names[1:], ".")
      }
      return
  }
  \<close>
  The manager has one owner, the load balancer, and is held in it.
\<close>

record SessionLoadBalancer =
  hostname :: string
  domain :: string
  manager :: SessionManager

definition NewSessionLoadBalancer :: SessionLoadBalancer where
  "NewSessionLoadBalancer = \<lparr>hostname = [], domain = [], manager = NewSessionManager\<rparr>"

definition TrimSuffix :: "string \<Rightarrow> string \<Rightarrow> string" where
  "TrimSuffix s suffix =
     (if length suffix \<le> length s \<and> drop (length s - length suffix) s = suffix
      then take (length s - length suffix) s else s)"

text \<open>\<open>strings.Split(s, ".")\<close>: the pieces between the dots, at least one piece.\<close>

fun SplitDot :: "string \<Rightarrow> string list" where
  "SplitDot [] = [[]]"
| "SplitDot (c # cs) =
     (if c = CHR ''.'' then [] # SplitDot cs
      else (case SplitDot cs of [] \<Rightarrow> [[c]] | w # ws \<Rightarrow> (c # w) # ws))"

fun JoinDot :: "string list \<Rightarrow> string" where
  "JoinDot [] = []"
| "JoinDot [w] = w"
| "JoinDot (w # ws) = w @ ''.'' @ JoinDot ws"

definition split :: "string \<Rightarrow> string \<times> string" where
  "split fqdn =
     (let names = SplitDot (TrimSuffix fqdn ''.'') in
      (if length names > 0 then names ! 0 else [],
       if length names > 1 then JoinDot (drop 1 names) else []))"

text \<open>
  \<^verbatim>\<open>
  func (lb LoadBalance) ServeSession(ctx context.Context, w dns.ResponseWriter, r *dns.Msg) (int, error) {
      state := request.Request{W: w, Req: r}
      qname := state.Name()
      hostname, domain := split(qname)
      hostnameMatch := hostname == lb.session.hostname
      domainMatch := (lb.session.domain == "" || domain == lb.session.domain)
      if state.QType() != dns.TypeA {
          return plugin.NextOrFailure(lb.Name(), lb.Next, ctx, w, r)
      }
      if hostnameMatch && domainMatch {
          ips := lb.session.GetIPs()
          answers := []dns.RR{}
          for _, ip := range ips {
              answers = append(answers, &dns.A{
                  Hdr: dns.RR_Header{Name: state.QName(), Rrtype: dns.TypeA,
                                     Class: state.QClass(), Ttl: 1},
                  A: ip,
              })
          }
          a := dns.Msg{Question: r.Question, Answer: answers}
          a.SetReply(r)
          a.Authoritative = true
          w.WriteMsg(&a)
          return 0, nil
      }
      return plugin.NextOrFailure(lb.Name(), lb.Next, ctx, w, r)
  }
  \<close>
  A \<open>Request\<close> holds what the handler reads from the query: \<open>state.Name()\<close>,
  \<open>state.QName()\<close>, \<open>state.QType()\<close> and \<open>state.QClass()\<close>. The handler either hands the
  query to the next handler of the chain (\<open>NextOrFailure\<close>) or writes a reply with the
  answer records (\<open>WriteMsg\<close>; \<open>RData\<close> is the field \<open>A\<close> of a \<open>dns.A\<close> record); the second component of the result is the load balancer
  after the call.
\<close>

record Request =
  Name :: string
  QName :: string
  QType :: "16 word"
  QClass :: "16 word"

record RR_A =
  HdrName :: string
  HdrRrtype :: "16 word"
  HdrClass :: "16 word"
  HdrTtl :: "32 word"
  RData :: IP

datatype Served = NextOrFailure | WriteMsg "RR_A list"

definition TypeA :: "16 word" where
  "TypeA = 1"

definition ServeSession ::
  "sortFn \<Rightarrow> (nat \<Rightarrow> nat) \<Rightarrow> (Addr \<times> ref) list \<Rightarrow> (Addr \<times> ref) list \<Rightarrow>
     SessionLoadBalancer \<Rightarrow> Request \<Rightarrow> Served \<times> SessionLoadBalancer" where
  "ServeSession srt rnd activeRange hostsRange session r =
     (let qname = Name r;
          (hostname1, domain1) = split qname;
          hostnameMatch = (hostname1 = hostname session);
          domainMatch = (domain session = [] \<or> domain1 = domain session)
      in if QType r \<noteq> TypeA then (NextOrFailure, session)
         else if hostnameMatch \<and> domainMatch then
           (let (ips, sm) = GetIPs srt rnd activeRange hostsRange (manager session);
                answers = map (\<lambda>a. \<lparr>HdrName = QName r, HdrRrtype = TypeA,
                                       HdrClass = QClass r, HdrTtl = 1, RData = a\<rparr>) ips
            in (WriteMsg answers, session\<lparr>manager := sm\<rparr>))
         else (NextOrFailure, session))"

subsection \<open>The setup-time parser\<close>

definition sessionTargetIps :: string where
  "sessionTargetIps = ''session_target_ips''"

definition sessionDomain :: string where
  "sessionDomain = ''session_domain''"

definition sessionScrapeMetric :: string where
  "sessionScrapeMetric = ''session_scrape_metric''"

definition sessionScrapePort :: string where
  "sessionScrapePort = ''session_scrape_port''"

definition sessionScrapeTimeout :: string where
  "sessionScrapeTimeout = ''session_scrape_timeout''"

text \<open>
  \<open>strconv.ParseInt(s, 10, 32)\<close>: an optional sign and decimal digits. The result is the
  number and whether an error is returned with it: \<open>0\<close> and an error for a string that
  is not such a numeral, the nearest bound of \<open>int32\<close> and an error for a number out of its
  range.
\<close>

definition isDigit :: "char \<Rightarrow> bool" where
  "isDigit c \<longleftrightarrow> c \<in> set ''0123456789''"

definition decimal :: "string \<Rightarrow> int" where
  "decimal ds = foldl (\<lambda>n c. 10 * n + (of_char c - 48)) 0 ds"

definition ParseInt32 :: "string \<Rightarrow> int \<times> bool" where
  "ParseInt32 s =
     (let neg = (s \<noteq> [] \<and> hd s = CHR ''-'');
          ds = (if s \<noteq> [] \<and> (hd s = CHR ''+'' \<or> hd s = CHR ''-'') then tl s else s)
      in if ds = [] \<or> \<not> list_all isDigit ds then (0, True)
         else (let un = decimal ds in
               if \<not> neg \<and> 2 ^ 31 \<le> un then (2 ^ 31 - 1, True)
               else if neg \<and> 2 ^ 31 < un then (- (2 ^ 31), True)
               else (if neg then - un else un, False)))"

text \<open>
  \<^verbatim>\<open>
  func checkSessionInputs(c *caddy.Controller, key string, args []string) error {
      singleInputKeys := []string{sessionDomain, sessionScrapeMetric,
          sessionScrapePort, sessionScrapeTimeout}
      multipleInputKeys := []string{sessionTargetIps}
      numericInputKeys := []string{sessionScrapePort, sessionScrapeTimeout}
      if slices.Contains(singleInputKeys, key) {
          if len(args) != 1 {
              return c.Err("Expected single parameters for " + key)
          }
      }
      if slices.Contains(multipleInputKeys, key) {
          if len(args) == 0 {
              return c.Err("Expected 1+ parameters for " + key)
          }
      }
      if slices.Contains(numericInputKeys, key) {
          value := args[0]
          _, err := strconv.ParseInt(value, 10, 32)
          if err != nil {
              msg := fmt.Sprintf("Failed to parse %s: %v is not a number", key, value)
              return c.Err(msg)
          }
      }
      return nil
  }
  \<close>
\<close>

definition checkSessionInputs :: "string \<Rightarrow> string list \<Rightarrow> unit result" where
  "checkSessionInputs key args =
     (let singleInputKeys =
            [sessionDomain, sessionScrapeMetric, sessionScrapePort, sessionScrapeTimeout];
          multipleInputKeys = [sessionTargetIps];
          numericInputKeys = [sessionScrapePort, sessionScrapeTimeout]
      in if key \<in> set singleInputKeys \<and> length args \<noteq> 1
           then Inl (Error (''Expected single parameters for '' @ key))
         else if key \<in> set multipleInputKeys \<and> length args = 0
           then Inl (Error (''Expected 1+ parameters for '' @ key))
         else if key \<in> set numericInputKeys then
           (case args of
              [] \<Rightarrow> Inl Panic
            | v # _ \<Rightarrow>
                if snd (ParseInt32 v)
                then Inl (Error (''Failed to parse '' @ key @ '': '' @ v @ '' is not a number''))
                else Inr ())
         else Inr ())"

text \<open>
  \<^verbatim>\<open>
  func parseTargetIps(prefixes []string) ([]netip.Addr, error) {
      addrs := []netip.Addr{}
      for _, prefix := range prefixes {
          ip, err := netip.ParseAddr(prefix)
          if err == nil {
              addrs = append(addrs, ip)
              continue
          }
          ips, err := expandNetworkPrefix(prefix)
          if err != nil {
              return addrs, err
          }
          addrs = append(addrs, ips...)
      }
      return addrs, nil
  }
  \<close>
  \<open>ParseAddr\<close> is \<open>netip.ParseAddr\<close> (\<open>None\<close> when it returns an error) and \<open>expand\<close> is
  \<open>expandNetworkPrefix\<close>, which returns the error of \<open>net.ParseCIDR\<close> (\<open>None\<close>) or the
  addresses of the prefix; which strings the \<open>net\<close> packages accept, and the walk over
  the addresses of a prefix, are taken as given.
\<close>

fun parseTargetIps ::
  "(string \<Rightarrow> Addr option) \<Rightarrow> (string \<Rightarrow> Addr list option) \<Rightarrow> string list \<Rightarrow> Addr list
     \<Rightarrow> Addr list result" where
  "parseTargetIps ParseAddr expand [] addrs = Inr addrs"
| "parseTargetIps ParseAddr expand (prefix # prefixes) addrs =
     (case ParseAddr prefix of
        Some a \<Rightarrow> parseTargetIps ParseAddr expand prefixes (addrs @ [a])
      | None \<Rightarrow>
          (case expand prefix of
             None \<Rightarrow> Inl (Error (''invalid CIDR address: '' @ prefix))
           | Some ips \<Rightarrow> parseTargetIps ParseAddr expand prefixes (addrs @ ips)))"

text \<open>
  \<^verbatim>\<open>
  func parseSession(c *caddy.Controller, args []string) (*SessionLoadBalancer, error) {
      if len(args) != 2 {
          msg := fmt.Sprintf("Expected 'session' and hostname parameters. Got: %v", args)
          return nil, c.Err(msg)
      }
      session := NewSessionLoadBalancer()
      session.hostname = args[1]
      for c.NextBlock() {
          key := c.Val()
          args := c.RemainingArgs()
          checkSessionInputs(c, key, args)
          value := args[0]
          i, _ := strconv.ParseInt(value, 10, 32)
          switch key {
          case sessionTargetIps:
              ips, err := parseTargetIps(args)
              if err != nil {
                  return nil, c.Err(fmt.Sprintf("%v", err))
              }
              for _, ip := range ips {
                  session.manager.Add(ip)
              }
          case sessionDomain:
              session.domain = value
          case sessionScrapeMetric:
              session.manager.scrapeMetric = value
          case sessionScrapePort:
              session.manager.scrapePort = uint16(i)
          case sessionScrapeTimeout:
              session.manager.scrapeTimeoutSeconds = uint(i)
          default:
              return nil, c.Err("Unknown parameter: " + key)
          }
      }
      session.manager.Start()
      session.PrintConfig()
      return session, nil
  }
  \<close>
  The block of the configuration is the list of its lines, each the key (\<open>c.Val()\<close>) and
  the arguments after it (\<open>c.RemainingArgs()\<close>). \<open>parseBlock\<close> is the \<open>for c.NextBlock()\<close>
  loop. The value \<open>checkSessionInputs\<close> returns is dropped by the caller, as in the source.
  \<open>hostsRange\<close> gives the order in which \<open>Start\<close> walks \<open>sm.hosts\<close>.
\<close>

fun parseBlock ::
  "(string \<Rightarrow> Addr option) \<Rightarrow> (string \<Rightarrow> Addr list option) \<Rightarrow> (string \<times> string list) list
     \<Rightarrow> SessionLoadBalancer \<Rightarrow> SessionLoadBalancer result" where
  "parseBlock ParseAddr expand [] session = Inr session"
| "parseBlock ParseAddr expand ((key, args) # rest) session =
     (let dropped = checkSessionInputs key args in
      case args of
        [] \<Rightarrow> Inl Panic
      | v # _ \<Rightarrow>
          (let i = fst (ParseInt32 v) in
           if key = sessionTargetIps then
             (case parseTargetIps ParseAddr expand args [] of
                Inl e \<Rightarrow> Inl e
              | Inr ips \<Rightarrow>
                  parseBlock ParseAddr expand rest
                    (session\<lparr>manager := foldl (\<lambda>sm a. Add a sm) (manager session) ips\<rparr>))
           else if key = sessionDomain then
             parseBlock ParseAddr expand rest (session\<lparr>domain := v\<rparr>)
           else if key = sessionScrapeMetric then
             parseBlock ParseAddr expand rest
               (session\<lparr>manager := (manager session)\<lparr>scrapeMetric := v\<rparr>\<rparr>)
           else if key = sessionScrapePort then
             parseBlock ParseAddr expand rest
               (session\<lparr>manager := (manager session)\<lparr>scrapePort := word_of_int i\<rparr>\<rparr>)
           else if key = sessionScrapeTimeout then
             parseBlock ParseAddr expand rest
               (session\<lparr>manager := (manager session)\<lparr>scrapeTimeoutSeconds := word_of_int i\<rparr>\<rparr>)
           else Inl (Error (''Unknown parameter: '' @ key))))"

definition parseSession ::
  "(string \<Rightarrow> Addr option) \<Rightarrow> (string \<Rightarrow> Addr list option) \<Rightarrow>
     (SessionManager \<Rightarrow> (Addr \<times> ref) list) \<Rightarrow> string list \<Rightarrow> (string \<times> string list) list
     \<Rightarrow> SessionLoadBalancer result" where
  "parseSession ParseAddr expand hostsRange args block =
     (if length args \<noteq> 2
      then Inl (Error ''Expected session and hostname parameters'')
      else (case parseBlock ParseAddr expand block (NewSessionLoadBalancer\<lparr>hostname := args ! 1\<rparr>) of
              Inl e \<Rightarrow> Inl e
            | Inr session \<Rightarrow>
                Inr (session\<lparr>manager := Start (hostsRange (manager session)) (manager session)\<rparr>)))"


text \<open>
  A response is a failed scrape of the metric \<open>name\<close> when the request failed, or when no
  family of that name with a supported type is among those the parser returned.
\<close>

definition scrapeFails :: "string \<Rightarrow> HttpResult \<Rightarrow> bool" where
  "scrapeFails name resp =
     (case resp of
        GetFailed \<Rightarrow> True
      | GetOK fams parseErr \<Rightarrow>
          list_all (\<lambda>(k, mf). k = name \<longrightarrow> GetType mf \<noteq> GAUGE \<and> GetType mf \<noteq> COUNTER) fams)"

subsection \<open>Executions\<close>

text \<open>
  The operations that touch a session manager once it exists, as events: \<open>Add\<close>, the three
  assignments of \<open>parseSession\<close> to its fields, \<open>Start\<close>, one iteration of a poller's
  \<open>ScrapeLoop\<close>, \<open>GetIPs\<close> (which is all \<open>ServeSession\<close> does to the manager), and the two
  debugging functions \<open>PrintState\<close> and \<open>ListIPs\<close>, which only read. An event carries what
  the operation takes from its environment. \<open>step\<close> is the effect of an event and \<open>run\<close>
  that of a sequence of events, each taken as one indivisible step; interleavings within
  an operation (the plugin uses no locks) are not modelled.

  An event is \<open>enabled\<close> when the environment's part of it fits the state: a \<open>range\<close>
  order lists the entries of its map, the sort keeps its promise, and a poller runs only
  for a host for which \<open>Start\<close> has launched one.
\<close>

datatype Event =
    EvAdd Addr
  | EvSetScrapeMetric string
  | EvSetScrapePort "16 word"
  | EvSetScrapeTimeout "64 word"
  | EvStart "(Addr \<times> ref) list"
  | EvScrapeLoopBody ref Tick
  | EvGetIPs sortFn "nat \<Rightarrow> nat" "(Addr \<times> ref) list" "(Addr \<times> ref) list"
  | EvPrintState
  | EvListIPs

fun step :: "Event \<Rightarrow> SessionManager \<Rightarrow> SessionManager result" where
  "step (EvAdd a) sm = Inr (Add a sm)"
| "step (EvSetScrapeMetric v) sm = Inr (sm\<lparr>scrapeMetric := v\<rparr>)"
| "step (EvSetScrapePort p) sm = Inr (sm\<lparr>scrapePort := p\<rparr>)"
| "step (EvSetScrapeTimeout t) sm = Inr (sm\<lparr>scrapeTimeoutSeconds := t\<rparr>)"
| "step (EvStart es) sm = Inr (Start es sm)"
| "step (EvScrapeLoopBody host tick) sm = ScrapeLoopBody tick host sm"
| "step (EvGetIPs srt rnd activeRange hostsRange) sm =
     Inr (snd (GetIPs srt rnd activeRange hostsRange sm))"
| "step EvPrintState sm = Inr sm"
| "step EvListIPs sm = Inr sm"

fun enabled :: "Event \<Rightarrow> SessionManager \<Rightarrow> bool" where
  "enabled (EvStart es) sm = rangeOf (hosts sm) es"
| "enabled (EvScrapeLoopBody host tick) sm = (host \<in> set (pollers sm))"
| "enabled (EvGetIPs srt rnd activeRange hostsRange) sm =
     (sortContract srt \<and> rangeOf (active sm) activeRange \<and> rangeOf (hosts sm) hostsRange)"
| "enabled e sm = True"



fun run :: "Event list \<Rightarrow> SessionManager \<Rightarrow> SessionManager result" where
  "run [] sm = Inr sm"
| "run (e # es) sm = (case step e sm of Inl f \<Rightarrow> Inl f | Inr sm1 \<Rightarrow> run es sm1)"

text \<open>
  \<open>quietFor r es sm\<close>: the events \<open>es\<close> can happen one after the other from \<open>sm\<close>, none
  ends in a panic, and none is a successful scrape of \<open>r\<close>. \<open>allowed es sm\<close>: each event of
  \<open>es\<close> is enabled where it happens.
\<close>

fun allowed :: "Event list \<Rightarrow> SessionManager \<Rightarrow> bool" where
  "allowed [] sm = True"
| "allowed (e # es) sm =
     (enabled e sm \<and> (case step e sm of Inl f \<Rightarrow> True | Inr sm1 \<Rightarrow> allowed es sm1))"


text \<open>
  The registry invariant: every entry of the host map leads to an allocated host whose
  \<open>ip\<close> is the key, the active map is a part of the host map, pollers run for registered
  hosts only, and every estimate is a \<open>float32\<close>.
\<close>

definition wellFormed :: "SessionManager \<Rightarrow> bool" where
  "wellFormed sm \<longleftrightarrow>
     (\<forall>a r. hosts sm a = Some r \<longrightarrow> r < nextRef sm \<and> ip (store sm r) = a) \<and>
     (\<forall>a r. active sm a = Some r \<longrightarrow> hosts sm a = Some r) \<and>
     set (pollers sm) \<subseteq> ran (hosts sm) \<and>
     (\<forall>r. isFloat32 (estimate (store sm r)))"

text \<open>\<open>y\<close> is \<open>x\<close> or greater than \<open>x\<close> (a NaN is related to itself only).\<close>

definition nondecreasing :: "fp \<Rightarrow> fp \<Rightarrow> bool" where
  "nondecreasing x y \<longleftrightarrow> x = y \<or> less32 x y"

subsection \<open>Example configurations\<close>

text \<open>
  One registered host \<open>10.0.0.1\<close> whose poller runs: with the metric \<open>sessions\<close> and the
  default timeout (\<open>smOne\<close>), and with a timeout of 2000000000 seconds (\<open>smLongTimeout\<close>).
  \<open>gaugeFamily v\<close> is a gauge with the single sample \<open>v\<close>.
\<close>

definition addrA :: Addr where
  "addrA = Addr [10, 0, 0, 1] []"

definition smOne :: SessionManager where
  "smOne = (Add addrA NewSessionManager)\<lparr>scrapeMetric := ''sessions'', pollers := [0]\<rparr>"




definition hostWith :: "Addr \<Rightarrow> rat \<Rightarrow> Host" where
  "hostWith a v = \<lparr>ip = a, port = 0, base = Fin v, updated = 1000, estimate = Fin v\<rparr>"





definition gaugeFamily :: "float64 \<Rightarrow> MetricFamily" where
  "gaugeFamily v = \<lparr>GetType = GAUGE, GetMetric = [\<lparr>GetGauge = Some v, GetCounter = None\<rparr>]\<rparr>"

section \<open>Rounding to \<open>float32\<close>: facts\<close>

text \<open>
  Rounding yields a \<open>float32\<close>, leaves every \<open>float32\<close> as it is, is monotone, and is exact
  on the integers up to \<open>2^24\<close> in magnitude.
\<close>

lemma bitlen_nonpos [simp]: "n \<le> 0 \<Longrightarrow> bitlen n = 0"
  by (simp add: bitlen.simps)

lemma bitlen_pos: "0 < n \<Longrightarrow> bitlen n = Suc (bitlen (n div 2))"
  by (subst bitlen.simps) simp

lemma bitlen_bounds: "0 < n \<Longrightarrow> 2 ^ (bitlen n - 1) \<le> n \<and> n < 2 ^ bitlen n"
proof (induction n rule: bitlen.induct)
  case (1 n)
  show ?case
  proof (cases "n div 2 \<le> 0")
    case True
    with 1 have "n = 1" by presburger
    then show ?thesis by (simp add: bitlen_pos)
  next
    case False
    then have pos: "0 < n div 2" by simp
    from 1 pos have IH: "2 ^ (bitlen (n div 2) - 1) \<le> n div 2 \<and> n div 2 < 2 ^ bitlen (n div 2)"
      by simp
    from pos have "0 < bitlen (n div 2)" by (simp add: bitlen_pos)
    then obtain k where k: "bitlen (n div 2) = Suc k" by (cases "bitlen (n div 2)") auto
    from IH k have "2 ^ k \<le> n div 2" "n div 2 < 2 * 2 ^ k" by simp_all
    then have "2 * 2 ^ k \<le> n" "n < 2 * (2 * 2 ^ k)" by linarith+
    then show ?thesis using 1 k by (simp add: bitlen_pos)
  qed
qed

lemma bitlen_less: "n < 2 ^ bitlen n"
proof (cases "0 < n")
  case True
  then show ?thesis using bitlen_bounds by blast
next
  case False
  then have "n \<le> 0" by simp
  also have "(0::int) < 2 ^ bitlen n" by simp
  finally show ?thesis .
qed

lemma bitlen_unique:
  assumes "2 ^ k \<le> n" "n < 2 ^ Suc k"
  shows "bitlen n = Suc k"
proof -
  have pos: "0 < n" using assms(1) by (smt (verit) zero_less_power)
  from bitlen_bounds[OF pos] have b: "2 ^ (bitlen n - 1) \<le> n" "n < 2 ^ bitlen n" by auto
  have "(2::int) ^ k < 2 ^ bitlen n" using assms(1) b(2) by linarith
  then have 1: "k < bitlen n" by (rule power_less_imp_less_exp[rotated]) simp
  have "(2::int) ^ (bitlen n - 1) < 2 ^ Suc k" using assms(2) b(1) by linarith
  then have 2: "bitlen n - 1 < Suc k" by (rule power_less_imp_less_exp[rotated]) simp
  from 1 2 show ?thesis by linarith
qed

lemma bitlen_mono: "a \<le> b \<Longrightarrow> bitlen a \<le> bitlen b"
proof (cases "0 < a")
  case False
  then show ?thesis by simp
next
  case True
  assume ab: "a \<le> b"
  show ?thesis
  proof (rule ccontr)
    assume "\<not> bitlen a \<le> bitlen b"
    then have lt: "bitlen b \<le> bitlen a - 1" by simp
    have "b < 2 ^ bitlen b" by (rule bitlen_less)
    also have "(2::int) ^ bitlen b \<le> 2 ^ (bitlen a - 1)" using lt by (simp add: power_increasing)
    also have "\<dots> \<le> a" using bitlen_bounds[OF True] by simp
    finally show False using ab by simp
  qed
qed

lemma bitlen_mult_pow2: "0 < n \<Longrightarrow> bitlen (n * 2 ^ j) = bitlen n + j"
proof -
  assume pos: "0 < n"
  then have "0 < bitlen n" by (simp add: bitlen_pos)
  then obtain k where k: "bitlen n = Suc k" by (cases "bitlen n") auto
  from bitlen_bounds[OF pos] k have "2 ^ k \<le> n" "n < 2 ^ Suc k" by simp_all
  then have "2 ^ (k + j) \<le> n * 2 ^ j" "n * 2 ^ j < 2 ^ Suc (k + j)"
    by (simp_all add: power_add)
  then have "bitlen (n * 2 ^ j) = Suc (k + j)" by (rule bitlen_unique)
  then show ?thesis using k by simp
qed

lemma rhe_of_int [simp]: "rhe (of_int k) = k"
  by (simp add: rhe_def)

lemma rhe_bounds: "\<lfloor>x\<rfloor> \<le> rhe x \<and> rhe x \<le> \<lfloor>x\<rfloor> + 1"
  by (simp add: rhe_def Let_def)

lemma rhe_mono: "x \<le> y \<Longrightarrow> rhe x \<le> rhe y"
proof -
  assume xy: "x \<le> y"
  then have fl: "\<lfloor>x\<rfloor> \<le> \<lfloor>y\<rfloor>" by (rule floor_mono)
  show ?thesis
  proof (cases "\<lfloor>x\<rfloor> = \<lfloor>y\<rfloor>")
    case True
    then have "x - of_int \<lfloor>x\<rfloor> \<le> y - of_int \<lfloor>y\<rfloor>" using xy by simp
    then show ?thesis using True by (auto simp: rhe_def Let_def)
  next
    case False
    then have "\<lfloor>x\<rfloor> + 1 \<le> \<lfloor>y\<rfloor>" using fl by simp
    then show ?thesis using rhe_bounds[of x] rhe_bounds[of y] by linarith
  qed
qed

lemma rhe_le: "x \<le> of_int k \<Longrightarrow> rhe x \<le> k"
  using rhe_mono[of x "of_int k"] by simp

lemma rhe_ge: "of_int k \<le> x \<Longrightarrow> k \<le> rhe x"
  using rhe_mono[of "of_int k" x] by simp

lemma floor_less_pow: "(0::rat) \<le> s \<Longrightarrow> s < 2 ^ bitlen \<lfloor>s\<rfloor>"
proof -
  have "\<lfloor>s\<rfloor> < 2 ^ bitlen \<lfloor>s\<rfloor>" by (rule bitlen_less)
  then have "\<lfloor>s\<rfloor> + 1 \<le> 2 ^ bitlen \<lfloor>s\<rfloor>" by simp
  then have "(of_int (\<lfloor>s\<rfloor> + 1) :: rat) \<le> of_int (2 ^ bitlen \<lfloor>s\<rfloor>)" by (rule of_int_le_iff[THEN iffD2])
  moreover have "s < of_int (\<lfloor>s\<rfloor> + 1)" by linarith
  ultimately show ?thesis by simp
qed

lemma scaled_upper: "(0::rat) \<le> s \<Longrightarrow> s / 2 ^ (bitlen \<lfloor>s\<rfloor> - 24) < 2 ^ 24"
proof -
  assume s: "0 \<le> s"
  let ?b = "bitlen \<lfloor>s\<rfloor>"
  have lt: "s < 2 ^ ?b" using s by (rule floor_less_pow)
  have "(2::rat) ^ ?b \<le> 2 ^ (?b - 24) * 2 ^ 24"
  proof -
    have "?b \<le> (?b - 24) + 24" by simp
    then have "(2::rat) ^ ?b \<le> 2 ^ ((?b - 24) + 24)" by (rule power_increasing) simp
    then show ?thesis by (simp only: power_add)
  qed
  with lt have "s < 2 ^ (?b - 24) * 2 ^ 24" by linarith
  then show ?thesis by (simp add: pos_divide_less_eq mult.commute)
qed


lemma rhe_zero [simp]: "rhe 0 = 0"
  using rhe_of_int[of 0] by simp

lemma roundUnits_nonneg: "0 \<le> s \<Longrightarrow> 0 \<le> roundUnits s"
proof -
  assume s: "0 \<le> s"
  have "(0::rat) \<le> s / 2 ^ (bitlen \<lfloor>s\<rfloor> - 24)" using s by simp
  then have "0 \<le> rhe (s / 2 ^ (bitlen \<lfloor>s\<rfloor> - 24))" using rhe_ge[of 0] by simp
  then show ?thesis by (simp add: roundUnits_def Let_def)
qed

lemma roundUnits_shape:
  assumes "0 \<le> s"
  shows "\<exists>m j. roundUnits s = m * 2 ^ j \<and> 0 \<le> m \<and> m \<le> 2 ^ 24"
proof -
  let ?sh = "bitlen \<lfloor>s\<rfloor> - 24"
  let ?m = "rhe (s / 2 ^ ?sh)"
  have "s / 2 ^ ?sh \<le> of_int (2 ^ 24)" using scaled_upper[OF assms] by simp
  then have up: "?m \<le> 2 ^ 24" by (rule rhe_le)
  have "(of_int 0 :: rat) \<le> s / 2 ^ ?sh" using assms by simp
  then have lo: "0 \<le> ?m" by (rule rhe_ge)
  have "roundUnits s = ?m * 2 ^ ?sh" by (simp add: roundUnits_def Let_def)
  with lo up show ?thesis by blast
qed

lemma bitlen_pow2: "bitlen (2 ^ k) = Suc k"
  by (rule bitlen_unique) simp_all

lemma of_int_mult_pow_div: "(of_int (k * 2 ^ n) :: rat) / 2 ^ n = of_int k"
  by simp

lemma roundUnits_exact:
  assumes "0 \<le> m" "m \<le> 2 ^ 24"
  shows "roundUnits (of_int (m * 2 ^ j)) = m * 2 ^ j"
proof (cases "m = 0")
  case True
  then show ?thesis by (simp add: roundUnits_def)
next
  case False
  let ?sh = "bitlen m + j - 24"
  from False have pos: "0 < m" using assms by simp
  have bl: "bitlen (m * 2 ^ j) = bitlen m + j" using pos by (rule bitlen_mult_pow2)
  have fl: "\<lfloor>(of_int (m * 2 ^ j) :: rat)\<rfloor> = m * 2 ^ j" by (rule floor_of_int)
  have "bitlen m \<le> bitlen (2 ^ 24)" using assms(2) by (rule bitlen_mono)
  then have le25: "bitlen m \<le> 25" unfolding bitlen_pow2 by simp
  have "\<exists>k. m * 2 ^ j = k * 2 ^ ?sh"
  proof (cases "bitlen m \<le> 24")
    case True
    then have "?sh \<le> j" by simp
    then obtain d where d: "j = ?sh + d" using le_Suc_ex by blast
    have "m * 2 ^ (?sh + d) = (m * 2 ^ d) * 2 ^ ?sh" by (simp only: power_add ac_simps)
    then have "m * 2 ^ j = (m * 2 ^ d) * 2 ^ ?sh" using d by simp
    then show ?thesis by blast
  next
    case False
    then have b25: "bitlen m = 25" using le25 by simp
    from bitlen_bounds[OF pos] have "2 ^ (bitlen m - 1) \<le> m" by simp
    then have "2 ^ 24 \<le> m" unfolding b25 by simp
    then have m: "m = 2 ^ 23 * 2" using assms(2) by simp
    have sh: "?sh = Suc j" using b25 by simp
    have "m * 2 ^ j = 2 ^ 23 * 2 ^ Suc j" by (subst m) simp
    then have "m * 2 ^ j = 2 ^ 23 * 2 ^ ?sh" by (simp only: sh)
    then show ?thesis by blast
  qed
  then obtain k where k: "m * 2 ^ j = k * 2 ^ ?sh" by blast
  have "roundUnits (of_int (m * 2 ^ j)) = rhe (of_int (m * 2 ^ j) / 2 ^ ?sh) * 2 ^ ?sh"
    unfolding roundUnits_def Let_def fl bl ..
  also have "\<dots> = rhe (of_int (k * 2 ^ ?sh) / 2 ^ ?sh) * 2 ^ ?sh" by (simp only: k)
  also have "\<dots> = k * 2 ^ ?sh" by (simp only: of_int_mult_pow_div rhe_of_int)
  also have "\<dots> = m * 2 ^ j" by (simp only: k)
  finally show ?thesis .
qed

lemma roundUnits_idem:
  assumes "0 \<le> s"
  shows "roundUnits (of_int (roundUnits s)) = roundUnits s"
proof -
  from roundUnits_shape[OF assms] obtain m j
    where "roundUnits s = m * 2 ^ j" "0 \<le> m" "m \<le> 2 ^ 24" by blast
  then show ?thesis using roundUnits_exact[of m j] by simp
qed


lemma roundMag_scaled: "roundMag a * 2 ^ 149 = of_int (roundUnits (a * 2 ^ 149))"
  by (simp add: roundMag_def)

lemma roundMag_nonneg: "0 \<le> a \<Longrightarrow> 0 \<le> roundMag a"
proof -
  assume "0 \<le> a"
  then have "(0::rat) \<le> a * 2 ^ 149" by simp
  then have "0 \<le> roundUnits (a * 2 ^ 149)" by (rule roundUnits_nonneg)
  then show ?thesis by (simp add: roundMag_def)
qed

lemma roundMag_idem: "0 \<le> a \<Longrightarrow> roundMag (roundMag a) = roundMag a"
proof -
  assume "0 \<le> a"
  then have "(0::rat) \<le> a * 2 ^ 149" by simp
  then have "roundUnits (of_int (roundUnits (a * 2 ^ 149))) = roundUnits (a * 2 ^ 149)"
    by (rule roundUnits_idem)
  then have e: "roundUnits (roundMag a * 2 ^ 149) = roundUnits (a * 2 ^ 149)"
    by (simp only: roundMag_scaled)
  have "roundMag (roundMag a) = of_int (roundUnits (roundMag a * 2 ^ 149)) / 2 ^ 149"
    by (rule roundMag_def)
  also have "\<dots> = of_int (roundUnits (a * 2 ^ 149)) / 2 ^ 149" by (simp only: e)
  also have "\<dots> = roundMag a" by (rule roundMag_def[symmetric])
  finally show ?thesis .
qed


lemma roundMag_of_int:
  assumes "0 \<le> k" "k \<le> 2 ^ 24"
  shows "roundMag (of_int k) = of_int k"
proof -
  have "(of_int k :: rat) * 2 ^ 149 = of_int (k * 2 ^ 149)" by simp
  then have "roundUnits ((of_int k :: rat) * 2 ^ 149) = k * 2 ^ 149"
    using roundUnits_exact[OF assms, of 149] by (simp only:)
  then have "roundMag (of_int k) = of_int (k * 2 ^ 149) / 2 ^ 149"
    by (simp only: roundMag_def)
  then show ?thesis by (simp only: of_int_mult_pow_div)
qed

lemma roundMag_zero [simp]: "roundMag 0 = 0"
  using roundMag_of_int[of 0] by simp

lemma round32_cases:
  "round32 r = NInf \<or> round32 r = PInf \<or>
   (r < 0 \<and> round32 r = Fin (- roundMag (- r)) \<and> roundMag (- r) < 2 ^ 128) \<or>
   (0 \<le> r \<and> round32 r = Fin (roundMag r) \<and> roundMag r < 2 ^ 128)"
  by (auto simp: round32_def Let_def)

lemma round32_not_NaN [simp]: "round32 r \<noteq> NaN"
  by (simp add: round32_def Let_def)

lemma round32_idem:
  assumes "round32 r = Fin m"
  shows "round32 m = Fin m"
proof (cases "r < 0")
  case True
  with assms have m: "m = - roundMag (- r)" and lt: "roundMag (- r) < 2 ^ 128"
    by (auto simp: round32_def Let_def split: if_splits)
  have nn: "0 \<le> roundMag (- r)" using True by (intro roundMag_nonneg) simp
  show ?thesis
  proof (cases "m < 0")
    case mneg: True
    have "roundMag (- m) = roundMag (- r)"
      using roundMag_idem[of "- r"] True by (simp add: m)
    then show ?thesis using mneg lt m by (simp add: round32_def Let_def)
  next
    case False
    then have "m = 0" using m nn by simp
    then show ?thesis by (simp add: round32_def)
  qed
next
  case False
  with assms have m: "m = roundMag r" and lt: "roundMag r < 2 ^ 128"
    by (auto simp: round32_def Let_def split: if_splits)
  have nn: "0 \<le> roundMag r" using False by (intro roundMag_nonneg) simp
  have "roundMag m = roundMag r" using roundMag_idem[of r] False by (simp add: m)
  then show ?thesis using nn lt m by (simp add: round32_def Let_def)
qed

lemma isFloat32_round32 [simp]: "isFloat32 (round32 r)"
  by (cases "round32 r") (simp_all add: isFloat32_def round32_idem)

lemma isFloat32_toFloat32 [simp]: "isFloat32 (toFloat32 v)"
  by (cases v) (simp_all add: isFloat32_def[of PInf] isFloat32_def[of NInf] isFloat32_def[of NaN])

lemma isFloat32_inc32 [simp]: "isFloat32 (inc32 x)"
  by (cases x) (simp_all add: isFloat32_def[of PInf] isFloat32_def[of NInf] isFloat32_def[of NaN])

lemma round32_of_int:
  assumes "- (2 ^ 24) \<le> k" "k \<le> 2 ^ 24"
  shows "round32 (of_int k) = Fin (of_int k)"
proof (cases "k < 0")
  case True
  then have "roundMag (of_int (- k)) = of_int (- k)" using assms by (intro roundMag_of_int) simp_all
  then have "roundMag (- of_int k) = - of_int k" by simp
  moreover have "- (of_int k :: rat) \<le> 2 ^ 24" using assms(1)
    by (metis minus_le_iff of_int_le_iff of_int_minus of_int_numeral of_int_power)
  then have "- (of_int k :: rat) < 2 ^ 128" by simp
  ultimately show ?thesis using True by (simp add: round32_def Let_def)
next
  case False
  then have "roundMag (of_int k) = of_int k" using assms by (intro roundMag_of_int) simp_all
  moreover have "(of_int k :: rat) \<le> 2 ^ 24" using assms(2)
    by (metis of_int_le_iff of_int_numeral of_int_power)
  then have "(of_int k :: rat) < 2 ^ 128" by simp
  ultimately show ?thesis using False by (simp add: round32_def Let_def)
qed

lemma less32_NInf_right [simp]: "\<not> less32 x NInf"
  by (cases x) simp_all




lemma inc32_NaN_iff [simp]: "inc32 x = NaN \<longleftrightarrow> x = NaN"
  by (cases x) simp_all

section \<open>The telemetry fetcher: \<open>getMetricValue\<close>\<close>

lemma getMetricValue_unsupported:
  "GetType mf \<noteq> GAUGE \<Longrightarrow> GetType mf \<noteq> COUNTER \<Longrightarrow>
   getMetricValue mf = Inl (Error ''Unsupported metric type'')"
  by (simp add: getMetricValue_def)

text \<open>
  Claim C9, as stated, at a gauge family with one sample that carries no gauge value (its
  \<open>Gauge\<close> message is nil): the sample list is not empty, and the call panics on the nil
  pointer instead of returning a value.
\<close>

theorem getMetricValue_nil_gauge_panics:
  "getMetricValue \<lparr>GetType = GAUGE,
      GetMetric = [\<lparr>GetGauge = None, GetCounter = Some (Fin 3)\<rparr>]\<rparr> = Inl Panic"
  by (simp add: getMetricValue_def)

text \<open>
  Claim C9, amended: for a family of type gauge or counter, \<open>getMetricValue\<close> returns a value
  exactly when the sample list is not empty and its first sample carries a value of the
  family's type, and the value returned is that one; in every other case (no sample, or a
  first sample without the value) the call panics. It never returns an error for such a
  family.
\<close>

theorem getMetricValue_first_sample:
  assumes "GetType mf = GAUGE \<or> GetType mf = COUNTER"
  shows "(getMetricValue mf = Inr v \<longleftrightarrow>
            (\<exists>m ms. GetMetric mf = m # ms \<and> sampleValue (GetType mf) m = Some v))
       \<and> (getMetricValue mf = Inl Panic \<longleftrightarrow>
            (GetMetric mf = [] \<or>
             (\<exists>m ms. GetMetric mf = m # ms \<and> sampleValue (GetType mf) m = None)))
       \<and> getMetricValue mf \<noteq> Inl (Error msg)"
  using assms
  by (auto simp: getMetricValue_def sampleValue_def split: list.splits option.splits)

theorem getMetricValue_first_sample_witness:
  "getMetricValue \<lparr>GetType = COUNTER,
      GetMetric = [\<lparr>GetGauge = None, GetCounter = Some (Fin 7)\<rparr>,
                   \<lparr>GetGauge = None, GetCounter = Some (Fin 9)\<rparr>]\<rparr> = Inr (Fin 7)
   \<and> getMetricValue \<lparr>GetType = GAUGE, GetMetric = []\<rparr> = Inl Panic"
  using getMetricValue_first_sample
          [of "\<lparr>GetType = COUNTER,
                 GetMetric = [\<lparr>GetGauge = None, GetCounter = Some (Fin 7)\<rparr>,
                              \<lparr>GetGauge = None, GetCounter = Some (Fin 9)\<rparr>]\<rparr>" "Fin 7"]
        getMetricValue_first_sample [of "\<lparr>GetType = GAUGE, GetMetric = []\<rparr>"]
  by (simp add: sampleValue_def)

section \<open>The query handler: \<open>ServeSession\<close>\<close>

text \<open>
  Claim C10: a query whose type is not A is handed to the next handler of the chain and no
  answer is written, whatever its name, also when hostname and domain match; the load
  balancer is left as it was, so \<open>GetIPs\<close> has not run (it would have raised an estimate).
\<close>

theorem ServeSession_not_TypeA:
  "QType r \<noteq> TypeA \<Longrightarrow>
   ServeSession srt rnd activeRange hostsRange session r = (NextOrFailure, session)"
  by (simp add: ServeSession_def Let_def split: prod.splits)

theorem ServeSession_not_TypeA_witness:
  "QType \<lparr>Name = ''www.example.org.'', QName = ''www.example.org.'', QType = 28, QClass = 1\<rparr>
     \<noteq> TypeA
   \<and> split ''www.example.org.'' = (''www'', ''example.org'')
   \<and> ServeSession insertionSort (\<lambda>i. 0) [] []
        (NewSessionLoadBalancer\<lparr>hostname := ''www'', domain := ''example.org''\<rparr>)
        \<lparr>Name = ''www.example.org.'', QName = ''www.example.org.'', QType = 28, QClass = 1\<rparr>
     = (NextOrFailure, NewSessionLoadBalancer\<lparr>hostname := ''www'', domain := ''example.org''\<rparr>)"
proof -
  have h: "QType \<lparr>Name = ''www.example.org.'', QName = ''www.example.org.'', QType = 28,
             QClass = 1\<rparr> \<noteq> TypeA"
    by (simp add: TypeA_def)
  have s: "split ''www.example.org.'' = (''www'', ''example.org'')"
    by (simp add: split_def TrimSuffix_def)
  show ?thesis
    using h s ServeSession_not_TypeA [OF h, of insertionSort "\<lambda>i. 0" "[]" "[]"
      "NewSessionLoadBalancer\<lparr>hostname := ''www'', domain := ''example.org''\<rparr>"]
    by simp
qed

section \<open>The setup-time parser: \<open>parseSession\<close>\<close>

lemma Add_scrapeIntervalSeconds [simp]:
  "scrapeIntervalSeconds (Add a sm) = scrapeIntervalSeconds sm"
  by (simp add: Add_def split: option.splits)

lemma foldl_Add_scrapeIntervalSeconds [simp]:
  "scrapeIntervalSeconds (foldl (\<lambda>sm a. Add a sm) sm ips) = scrapeIntervalSeconds sm"
  by (induction ips arbitrary: sm) simp_all

lemma Start_scrapeIntervalSeconds [simp]:
  "scrapeIntervalSeconds (Start es sm) = scrapeIntervalSeconds sm"
  by (induction es sm rule: Start.induct) simp_all


lemmas sessionKey_defs =
  sessionTargetIps_def sessionDomain_def sessionScrapeMetric_def sessionScrapePort_def
  sessionScrapeTimeout_def




text \<open>
  Claim C6 on the code. \<open>checkSessionInputs\<close> finds the malformed port, and \<open>parseSession\<close>
  drops what it returns and the error of its own \<open>strconv.ParseInt\<close>: the block is
  accepted with port 0, and \<open>Start\<close> launches the poller of the registered host. A second
  argument to a single-valued option is ignored in the same way, and an option without
  an argument ends in the panic of \<open>args[0]\<close>, not in an error.
\<close>

theorem parseSession_accepts_malformed_port:
  "checkSessionInputs ''session_scrape_port'' [''abc'']
     = Inl (Error ''Failed to parse session_scrape_port: abc is not a number'')
   \<and> parseSession (\<lambda>s. if s = ''10.0.0.1'' then Some (Addr [10, 0, 0, 1] []) else None)
        (\<lambda>_. None) (\<lambda>sm. [(Addr [10, 0, 0, 1] [], 0)]) [''session'', ''www'']
        [(''session_target_ips'', [''10.0.0.1'']), (''session_scrape_port'', [''abc''])]
     = Inr (NewSessionLoadBalancer
             \<lparr>hostname := ''www'',
              manager := (Add (Addr [10, 0, 0, 1] []) NewSessionManager)\<lparr>pollers := [0]\<rparr>\<rparr>)
   \<and> scrapePort (Add (Addr [10, 0, 0, 1] []) NewSessionManager) = 0
   \<and> parseSession (\<lambda>_. None) (\<lambda>_. None) (\<lambda>_. []) [''session'', ''www'']
        [(''session_domain'', [''a'', ''b''])]
     = Inr (NewSessionLoadBalancer\<lparr>hostname := ''www'', domain := ''a''\<rparr>)
   \<and> parseSession (\<lambda>_. None) (\<lambda>_. None) (\<lambda>_. []) [''session'', ''www'']
        [(''session_domain'', [])]
     = Inl Panic"
  by (simp add: parseSession_def checkSessionInputs_def sessionKey_defs Let_def ParseInt32_def
        isDigit_def decimal_def NewSessionLoadBalancer_def NewSessionManager_def Add_def Unix00_def)

section \<open>The poller: \<open>Scrape\<close> and \<open>ScrapeLoop\<close>\<close>

lemma scrapeFamilies_absent:
  "scrapeMetric sm \<notin> fst ` set fams \<Longrightarrow> scrapeFamilies now host fams sm = Inr sm"
  by (induction fams) auto

lemma scrapeFamilies_found:
  assumes "distinct (map fst fams)" "(scrapeMetric sm, mf) \<in> set fams"
  shows "scrapeFamilies now host fams sm =
     (case getMetricValue mf of
        Inl Panic \<Rightarrow> Inl Panic
      | Inl (Error e) \<Rightarrow> Inr sm
      | Inr v \<Rightarrow> Inr (sm\<lparr>store := (store sm)(host := Update now (toFloat32 v) (store sm host))\<rparr>))"
  using assms
proof (induction fams)
  case Nil
  then show ?case by simp
next
  case (Cons kf fams)
  obtain k f where kf: "kf = (k, f)" by (cases kf)
  show ?case
  proof (cases "k = scrapeMetric sm")
    case True
    with Cons.prems kf have notin: "scrapeMetric sm \<notin> fst ` set fams" by auto
    with Cons.prems kf True have f: "f = mf" by (auto simp: image_iff)
    show ?thesis
      using True kf f notin
      by (auto simp: scrapeFamilies_absent fun_upd_def split: sum.splits failure.splits)
  next
    case False
    with Cons kf show ?thesis by auto
  qed
qed

lemma toFloat32_id: "isFloat32 v \<Longrightarrow> toFloat32 v = v"
  by (cases v) (simp_all add: isFloat32_def)

lemma Scrape_frame:
  assumes "Scrape resp now host sm = Inr sm1"
  shows "\<exists>h. sm1 = sm\<lparr>store := (store sm)(host := h)\<rparr> \<and> ip h = ip (store sm host)
           \<and> port h = port (store sm host)
           \<and> (h = store sm host \<or> (\<exists>v. h = Update now (toFloat32 v) (store sm host)))"
proof -
  have "scrapeFamilies now host fams sm = Inr sm1 \<Longrightarrow>
        \<exists>h. sm1 = sm\<lparr>store := (store sm)(host := h)\<rparr> \<and> ip h = ip (store sm host)
           \<and> port h = port (store sm host)
           \<and> (h = store sm host \<or> (\<exists>v. h = Update now (toFloat32 v) (store sm host)))" for fams
  proof (induction fams arbitrary: sm)
    case Nil
    then have "sm1 = sm" by simp
    then have "sm1 = sm\<lparr>store := (store sm)(host := store sm host)\<rparr>" by simp
    then show ?case by blast
  next
    case (Cons kf fams)
    obtain k f where kf: "kf = (k, f)" by (cases kf)
    show ?case
    proof (cases "k = scrapeMetric sm")
      case False
      with Cons kf show ?thesis by simp
    next
      case True
      show ?thesis
      proof (cases "getMetricValue f")
        case (Inl e)
        with Cons True kf show ?thesis by (cases e) simp_all
      next
        case (Inr v)
        let ?sm = "sm\<lparr>store := (store sm)(host := Update now (toFloat32 v) (store sm host))\<rparr>"
        from Cons.prems True kf Inr have "scrapeFamilies now host fams ?sm = Inr sm1" by simp
        from Cons.IH[OF this] obtain h where
          h: "sm1 = ?sm\<lparr>store := (store ?sm)(host := h)\<rparr>" "ip h = ip (store ?sm host)"
             "port h = port (store ?sm host)"
             "h = store ?sm host \<or> (\<exists>v. h = Update now (toFloat32 v) (store ?sm host))"
          by blast
        have 1: "sm1 = sm\<lparr>store := (store sm)(host := h)\<rparr>" using h(1) by simp
        have 2: "ip h = ip (store sm host)" "port h = port (store sm host)"
          using h(2,3) by (simp_all add: Update_def)
        have 3: "h = store sm host \<or> (\<exists>v. h = Update now (toFloat32 v) (store sm host))"
          using h(4) by (auto simp: Update_def)
        from 1 2 3 show ?thesis by blast
      qed
    qed
  qed
  note loop = this
  show ?thesis
  proof (cases resp)
    case GetFailed
    with assms have "sm1 = sm\<lparr>store := (store sm)(host := store sm host)\<rparr>"
      by (simp add: Scrape_def)
    then show ?thesis by blast
  next
    case (GetOK fams e)
    with assms have "scrapeFamilies now host fams sm = Inr sm1" by (simp add: Scrape_def)
    then show ?thesis by (rule loop)
  qed
qed

text \<open>
  Claim C4, as stated, at a counter whose value is \<open>16777217\<close>: the scrape succeeds, and
  \<open>base\<close> and \<open>estimate\<close> hold \<open>16777216\<close>, the \<open>float32\<close> nearest to the parsed value and
  not the parsed value.
\<close>

theorem Scrape_rounds_parsed_value:
  "getMetricValue \<lparr>GetType = COUNTER,
       GetMetric = [\<lparr>GetGauge = None, GetCounter = Some (Fin 16777217)\<rparr>]\<rparr> = Inr (Fin 16777217)
   \<and> Scrape (GetOK [(''sessions'', \<lparr>GetType = COUNTER,
         GetMetric = [\<lparr>GetGauge = None, GetCounter = Some (Fin 16777217)\<rparr>]\<rparr>)] False)
        1000 0 smOne
     = Inr (smOne\<lparr>store := (store smOne)(0 :=
          \<lparr>ip = addrA, port = 0, base = Fin 16777216, updated = 1000, estimate = Fin 16777216\<rparr>)\<rparr>)"
proof -
  have r: "round32 16777217 = Fin 16777216" by code_simp
  show ?thesis
    by (simp add: getMetricValue_def Scrape_def smOne_def Add_def NewSessionManager_def
          Update_def r Unix00_def)
qed

text \<open>
  Claim C4, amended: after a successful scrape of a host (the request succeeds and the
  family of the configured name gives a value \<open>v\<close>) the host's \<open>estimate\<close> equals its \<open>base\<close>,
  both are \<open>v\<close> rounded to \<open>float32\<close>, which is \<open>v\<close> itself whenever a \<open>float32\<close> can hold
  \<open>v\<close>, and \<open>updated\<close> is the clock's reading of that scrape.
\<close>

theorem Scrape_success:
  assumes "distinct (map fst fams)" "(scrapeMetric sm, mf) \<in> set fams"
    "getMetricValue mf = Inr v"
  shows "\<exists>sm'. Scrape (GetOK fams parseErr) now host sm = Inr sm'
           \<and> estimate (store sm' host) = base (store sm' host)
           \<and> base (store sm' host) = toFloat32 v
           \<and> (isFloat32 v \<longrightarrow> base (store sm' host) = v)
           \<and> updated (store sm' host) = now"
  using scrapeFamilies_found[OF assms(1,2), of now host] assms(3)
  by (simp add: Scrape_def Update_def toFloat32_id)

theorem Scrape_success_witness:
  "distinct (map fst [(''sessions'', gaugeFamily (Fin 5))])
   \<and> (scrapeMetric smOne, gaugeFamily (Fin 5)) \<in> set [(''sessions'', gaugeFamily (Fin 5))]
   \<and> getMetricValue (gaugeFamily (Fin 5)) = Inr (Fin 5)
   \<and> isFloat32 (Fin 5)
   \<and> (\<exists>sm'. Scrape (GetOK [(''sessions'', gaugeFamily (Fin 5))] False) 1000 0 smOne = Inr sm'
         \<and> estimate (store sm' 0) = Fin 5 \<and> base (store sm' 0) = Fin 5
         \<and> updated (store sm' 0) = 1000)"
proof -
  have h1: "distinct (map fst [(''sessions'', gaugeFamily (Fin 5))])" by simp
  have h2: "(scrapeMetric smOne, gaugeFamily (Fin 5)) \<in> set [(''sessions'', gaugeFamily (Fin 5))]"
    by (simp add: smOne_def)
  have h3: "getMetricValue (gaugeFamily (Fin 5)) = Inr (Fin 5)"
    by (simp add: getMetricValue_def gaugeFamily_def)
  have h4: "isFloat32 (Fin 5)" by code_simp
  from Scrape_success [OF h1 h2 h3, of False 1000 0] h4
  have "\<exists>sm'. Scrape (GetOK [(''sessions'', gaugeFamily (Fin 5))] False) 1000 0 smOne = Inr sm'
         \<and> estimate (store sm' 0) = Fin 5 \<and> base (store sm' 0) = Fin 5
         \<and> updated (store sm' 0) = 1000"
    by auto
  with h1 h2 h3 h4 show ?thesis by blast
qed

text \<open>
  Claim C5 on the code. The parser reports an error (a malformed line after the sample of
  \<open>sessions\<close>) and returns the families read before it; \<open>Scrape\<close> logs the error and walks
  the families all the same, so the host that had never been scraped takes the value
  and the time of this scrape.
\<close>

theorem Scrape_parse_error_updates_host:
  "Scrape (GetOK [(''sessions'', gaugeFamily (Fin 5))] True) 1000 0 smOne
     = Inr (smOne\<lparr>store := (store smOne)(0 :=
          \<lparr>ip = addrA, port = 0, base = Fin 5, updated = 1000, estimate = Fin 5\<rparr>)\<rparr>)
   \<and> store smOne 0 = \<lparr>ip = addrA, port = 0, base = Fin 0, updated = 0, estimate = Fin 0\<rparr>"
proof -
  have r: "round32 5 = Fin 5" by code_simp
  show ?thesis
    by (simp add: getMetricValue_def Scrape_def smOne_def Add_def NewSessionManager_def
          Update_def r Unix00_def gaugeFamily_def)
qed


text \<open>
  A family of the configured name whose first sample carries no value does not count as
  a failed scrape either: \<open>getMetricValue\<close> panics, and the panic ends the poller's
  goroutine whatever the later responses would have been.
\<close>

lemma ScrapeLoop_sample_without_value_panics:
  "ScrapeLoop
     (\<lparr>response = GetOK [(''sessions'',
          \<lparr>GetType = GAUGE, GetMetric = [\<lparr>GetGauge = None, GetCounter = None\<rparr>]\<rparr>)] True,
       updateTime = 1000, checkTime = 2000\<rparr> # ticks) 0 smOne
   = Inl Panic"
  by (simp add: ScrapeLoopBody_def Scrape_def getMetricValue_def smOne_def)

text \<open>
  The other failures leave the state as it is and the loop running: a failed request, a
  response without the named family, and a named family of an unsupported type.
\<close>

lemma scrapeFamilies_fails:
  "list_all (\<lambda>(k, mf). k = scrapeMetric sm \<longrightarrow> GetType mf \<noteq> GAUGE \<and> GetType mf \<noteq> COUNTER) fams
   \<Longrightarrow> scrapeFamilies now host fams sm = Inr sm"
  by (induction fams) (auto simp: getMetricValue_def)

lemma Scrape_fails: "scrapeFails (scrapeMetric sm) resp \<Longrightarrow> Scrape resp now host sm = Inr sm"
  by (cases resp) (simp_all add: scrapeFails_def Scrape_def scrapeFamilies_fails)

theorem ScrapeLoop_failed_scrapes:
  assumes "\<forall>t\<in>set ticks. scrapeFails (scrapeMetric sm) (response t)"
  shows "\<exists>sm'. ScrapeLoop ticks host sm = Inr sm' \<and> store sm' = store sm
           \<and> hosts sm' = hosts sm \<and> scrapeMetric sm' = scrapeMetric sm"
  using assms
proof (induction ticks arbitrary: sm)
  case Nil
  then show ?case by simp
next
  case (Cons t ticks)
  then have f: "Scrape (response t) (updateTime t) host sm = Inr sm" by (simp add: Scrape_fails)
  obtain sm1 where b: "ScrapeLoopBody t host sm = Inr sm1" "store sm1 = store sm"
    "hosts sm1 = hosts sm" "scrapeMetric sm1 = scrapeMetric sm"
    using f by (simp add: ScrapeLoopBody_def)
  from Cons.prems b(4) have "\<forall>t\<in>set ticks. scrapeFails (scrapeMetric sm1) (response t)" by simp
  from Cons.IH[OF this] b show ?case by auto
qed

theorem ScrapeLoop_failed_scrapes_witness:
  "(\<forall>t\<in>set [\<lparr>response = GetFailed, updateTime = 5, checkTime = 6\<rparr>,
               \<lparr>response = GetOK [(''sessions'', \<lparr>GetType = SUMMARY, GetMetric = []\<rparr>)] False,
                updateTime = 7, checkTime = 8\<rparr>].
       scrapeFails (scrapeMetric smOne) (response t))
   \<and> (\<exists>sm'. ScrapeLoop [\<lparr>response = GetFailed, updateTime = 5, checkTime = 6\<rparr>,
               \<lparr>response = GetOK [(''sessions'', \<lparr>GetType = SUMMARY, GetMetric = []\<rparr>)] False,
                updateTime = 7, checkTime = 8\<rparr>] 0 smOne = Inr sm'
         \<and> store sm' = store smOne)"
proof -
  have h: "\<forall>t\<in>set [\<lparr>response = GetFailed, updateTime = 5, checkTime = 6\<rparr>,
               \<lparr>response = GetOK [(''sessions'', \<lparr>GetType = SUMMARY, GetMetric = []\<rparr>)] False,
                updateTime = 7, checkTime = 8\<rparr>].
       scrapeFails (scrapeMetric smOne) (response t)"
    by (simp add: scrapeFails_def smOne_def)
  from ScrapeLoop_failed_scrapes [OF h, of 0] h show ?thesis by blast
qed

section \<open>Liveness: the active set\<close>





section \<open>The selector: \<open>GetIPs\<close>\<close>

lemma mset_insertBy [simp]: "mset (insertBy lt x ys) = add_mset x (mset ys)"
  by (induction ys) simp_all


lemma set_insertBy [simp]: "set (insertBy lt x ys) = insert x (set ys)"
  by (induction ys) auto

lemma set_insertionSort [simp]: "set (insertionSort lt xs) = set xs"
  by (induction xs) auto




lemma less32_irrefl [simp]: "\<not> less32 x x"
  by (cases x) simp_all





lemma rangeOf_lookup: "rangeOf m es \<Longrightarrow> (a, r) \<in> set es \<Longrightarrow> m a = Some r"
  by (auto simp: rangeOf_def)






section \<open>The selector without active hosts: the shuffle\<close>

text \<open>
  The shuffle rearranges its slice whatever the generator gives, and for every
  rearrangement there are numbers of the generator that produce it.
\<close>

lemma length_swap [simp]: "length (swap i j xs) = length xs"
  by (simp add: swap_def)

lemma mset_swap_list: "i < length xs \<Longrightarrow> j < length xs \<Longrightarrow> mset (swap i j xs) = mset xs"
  unfolding swap_def by (rule mset_swap)


lemma draw_bound: "rnd (Suc i) mod (Suc i + 1) < Suc (Suc i)"
  by simp

lemma mset_shuffleLoop: "i < length xs \<Longrightarrow> mset (shuffleLoop rnd i xs) = mset xs"
proof (induction i arbitrary: xs)
  case 0
  then show ?case by simp
next
  case (Suc i)
  have j: "rnd (Suc i) mod (Suc i + 1) < length xs"
    using draw_bound[of rnd i] Suc.prems by linarith
  have "mset (shuffleLoop rnd i (swap (Suc i) (rnd (Suc i) mod (Suc i + 1)) xs))
        = mset (swap (Suc i) (rnd (Suc i) mod (Suc i + 1)) xs)"
    using Suc.prems by (intro Suc.IH) simp
  also have "\<dots> = mset xs" using Suc.prems j by (rule mset_swap_list)
  finally show ?case by simp
qed

lemma mset_Shuffle [simp]: "mset (Shuffle rnd xs) = mset xs"
proof (cases xs)
  case Nil
  then show ?thesis by (simp add: Shuffle_def)
next
  case (Cons x xs')
  then show ?thesis unfolding Shuffle_def by (intro mset_shuffleLoop) simp
qed










section \<open>The registry invariant and the writes to \<open>estimate\<close>\<close>

lemma isFloat32_zero [simp]: "isFloat32 (Fin 0)"
  using round32_of_int[of 0] by (simp add: isFloat32_def)

lemma wf_New: "wellFormed NewSessionManager"
  by (simp add: wellFormed_def NewSessionManager_def noHost_def)

lemma wf_activeKeyed: "wellFormed sm \<Longrightarrow> activeKeyed sm"
  by (simp add: wellFormed_def activeKeyed_def)

lemma nondecreasing_refl [simp]: "nondecreasing x x"
  by (simp add: nondecreasing_def)



lemma Start_fields [simp]:
  "hosts (Start es sm) = hosts sm" "active (Start es sm) = active sm"
  "nextRef (Start es sm) = nextRef sm" "scrapeMetric (Start es sm) = scrapeMetric sm"
  "pollers (Start es sm) = pollers sm @ map snd es"
  by (induction es sm rule: Start.induct) simp_all

lemma Start_store [simp]:
  "ip (store (Start es sm) r) = ip (store sm r)"
  "estimate (store (Start es sm) r) = estimate (store sm r)"
  "base (store (Start es sm) r) = base (store sm r)"
  "updated (store (Start es sm) r) = updated (store sm r)"
  by (induction es sm rule: Start.induct) simp_all

lemma Update_Update [simp]: "Update now v (Update now w h) = Update now v h"
  by (simp add: Update_def)



lemma ScrapeLoopBody_store:
  assumes "ScrapeLoopBody tick host sm = Inr sm'"
  shows "\<exists>sm1. Scrape (response tick) (updateTime tick) host sm = Inr sm1
           \<and> store sm' = store sm1 \<and> hosts sm' = hosts sm1 \<and> nextRef sm' = nextRef sm1
           \<and> pollers sm' = pollers sm1
           \<and> (active sm' = (active sm1)(ip (store sm1 host) \<mapsto> host)
              \<or> active sm' = (active sm1)(ip (store sm1 host) := None))"
  using assms by (auto simp: ScrapeLoopBody_def split: sum.splits if_splits)

lemma GetIPs_state:
  "snd (GetIPs srt rnd ar hr sm) = sm \<or>
   (\<exists>first. snd (GetIPs srt rnd ar hr sm)
      = sm\<lparr>store := (store sm)(first := (store sm first)\<lparr>estimate := inc32 (estimate (store sm first))\<rparr>)\<rparr>)"
  by (auto simp: GetIPs_def Let_def)

text \<open>
  Adding an address that is registered changes nothing: the registry and the fields of
  the host stay as they are, and a second \<open>Add\<close> of the same address is without effect.
\<close>

theorem Add_registered:
  "(hosts sm a \<noteq> None \<longrightarrow> Add a sm = sm) \<and> Add a (Add a sm) = Add a sm"
  by (auto simp: Add_def split: option.splits)

theorem Add_registered_witness:
  "hosts smOne addrA \<noteq> None \<and> Add addrA smOne = smOne
   \<and> Add addrA (Add addrA NewSessionManager) = Add addrA NewSessionManager"
  using Add_registered [of smOne addrA] Add_registered [of NewSessionManager addrA]
  by (simp add: smOne_def Add_def NewSessionManager_def)

lemma wf_Add: "wellFormed sm \<Longrightarrow> wellFormed (Add a sm)"
proof (cases "hosts sm a")
  case (Some r)
  assume "wellFormed sm"
  then show ?thesis using Some by (simp add: Add_def)
next
  case None
  assume w: "wellFormed sm"
  have "ran (hosts sm) \<subseteq> ran ((hosts sm)(a \<mapsto> nextRef sm))"
  proof
    fix x
    assume "x \<in> ran (hosts sm)"
    then obtain b where b: "hosts sm b = Some x" by (auto simp: ran_def)
    with None have "b \<noteq> a" by auto
    then have "((hosts sm)(a \<mapsto> nextRef sm)) b = Some x" using b by simp
    then show "x \<in> ran ((hosts sm)(a \<mapsto> nextRef sm))" by (rule ranI)
  qed
  with w None show ?thesis
    by (auto simp: wellFormed_def Add_def less_Suc_eq split: if_splits)
qed

lemma wf_Start: "wellFormed sm \<Longrightarrow> rangeOf (hosts sm) es \<Longrightarrow> wellFormed (Start es sm)"
proof -
  assume w: "wellFormed sm" and r: "rangeOf (hosts sm) es"
  have "snd ` set es \<subseteq> ran (hosts sm)"
  proof
    fix x
    assume "x \<in> snd ` set es"
    then obtain b where "(b, x) \<in> set es" by auto
    then have "hosts sm b = Some x" by (rule rangeOf_lookup[OF r])
    then show "x \<in> ran (hosts sm)" by (rule ranI)
  qed
  with w show ?thesis by (auto simp: wellFormed_def)
qed

lemma wf_ScrapeLoopBody:
  assumes "wellFormed sm" "host \<in> set (pollers sm)" "ScrapeLoopBody tick host sm = Inr sm'"
  shows "wellFormed sm'"
proof -
  from ScrapeLoopBody_store[OF assms(3)] obtain sm1 where
    s: "Scrape (response tick) (updateTime tick) host sm = Inr sm1" and
    eq: "store sm' = store sm1" "hosts sm' = hosts sm1" "nextRef sm' = nextRef sm1"
        "pollers sm' = pollers sm1" and
    act: "active sm' = (active sm1)(ip (store sm1 host) \<mapsto> host)
          \<or> active sm' = (active sm1)(ip (store sm1 host) := None)"
    by blast
  from Scrape_frame[OF s] obtain h where
    h: "sm1 = sm\<lparr>store := (store sm)(host := h)\<rparr>" "ip h = ip (store sm host)"
       "h = store sm host \<or> (\<exists>v. h = Update (updateTime tick) (toFloat32 v) (store sm host))"
    by blast
  from assms(1,2) obtain a where a: "hosts sm a = Some host"
    by (auto simp: wellFormed_def ran_def)
  with assms(1) have ipa: "ip (store sm host) = a" by (simp add: wellFormed_def)
  have fl: "isFloat32 (estimate h)"
    using h(3) assms(1) by (auto simp: wellFormed_def Update_def)
  have 1: "\<forall>a r. hosts sm' a = Some r \<longrightarrow> r < nextRef sm' \<and> ip (store sm' r) = a"
    using assms(1) h(1,2) eq by (auto simp: wellFormed_def)
  have 2: "\<forall>b r. active sm' b = Some r \<longrightarrow> hosts sm' b = Some r"
    using assms(1) h(1,2) eq act a ipa by (auto simp: wellFormed_def split: if_splits)
  have 3: "set (pollers sm') \<subseteq> ran (hosts sm')"
    using assms(1) h(1) eq by (simp add: wellFormed_def)
  have 4: "\<forall>r. isFloat32 (estimate (store sm' r))"
    using assms(1) h(1) eq fl by (simp add: wellFormed_def)
  from 1 2 3 4 show ?thesis unfolding wellFormed_def by blast
qed

lemma wf_GetIPs: "wellFormed sm \<Longrightarrow> wellFormed (snd (GetIPs srt rnd ar hr sm))"
  using GetIPs_state[of srt rnd ar hr sm] by (auto simp: wellFormed_def)

lemma wf_step:
  assumes "wellFormed sm" "enabled e sm" "step e sm = Inr sm'"
  shows "wellFormed sm'"
proof (cases e)
  case (EvAdd a)
  with assms show ?thesis by (auto simp: wf_Add)
next
  case (EvStart es)
  with assms show ?thesis by (auto simp: wf_Start)
next
  case (EvScrapeLoopBody host tick)
  with assms show ?thesis by (auto intro: wf_ScrapeLoopBody)
next
  case (EvGetIPs srt rnd ar hr)
  with assms show ?thesis by (auto simp: wf_GetIPs)
qed (use assms in \<open>auto simp: wellFormed_def\<close>)



lemma wf_run:
  "wellFormed sm \<Longrightarrow> allowed es sm \<Longrightarrow> run es sm = Inr sm' \<Longrightarrow> wellFormed sm'"
proof (induction es arbitrary: sm)
  case Nil
  then show ?case by simp
next
  case (Cons e es)
  from Cons.prems(3) obtain sm1 where st: "step e sm = Inr sm1" and r: "run es sm1 = Inr sm'"
    by (auto split: sum.splits)
  from Cons.prems(2) st have en: "enabled e sm" and al: "allowed es sm1" by simp_all
  have "wellFormed sm1" using Cons.prems(1) en st by (rule wf_step)
  then show ?case using al r by (rule Cons.IH)
qed

text \<open>
  Every state that the operations reach from a new session manager satisfies the registry
  invariant; in particular the active map leads to the hosts of its keys, and the active
  addresses are registered ones.
\<close>

theorem registry_invariant:
  assumes "allowed es NewSessionManager" "run es NewSessionManager = Inr sm"
  shows "wellFormed sm \<and> activeKeyed sm \<and> dom (active sm) \<subseteq> dom (hosts sm)"
proof -
  have w: "wellFormed sm" using wf_New assms by (rule wf_run)
  then have "activeKeyed sm" by (rule wf_activeKeyed)
  moreover have "dom (active sm) \<subseteq> dom (hosts sm)" using w by (auto simp: wellFormed_def)
  ultimately show ?thesis using w by blast
qed

theorem registry_invariant_witness:
  "allowed [EvAdd addrA, EvSetScrapeMetric ''sessions'', EvStart [(addrA, 0)],
            EvScrapeLoopBody 0 \<lparr>response = GetOK [(''sessions'', gaugeFamily (Fin 5))] False,
                                  updateTime = 2000, checkTime = 3000\<rparr>] NewSessionManager
   \<and> run [EvAdd addrA, EvSetScrapeMetric ''sessions'', EvStart [(addrA, 0)],
            EvScrapeLoopBody 0 \<lparr>response = GetOK [(''sessions'', gaugeFamily (Fin 5))] False,
                                  updateTime = 2000, checkTime = 3000\<rparr>] NewSessionManager
       = Inr (smOne\<lparr>store := (store smOne)(0 := (hostWith addrA 5)\<lparr>updated := 2000\<rparr>),
                   active := [addrA \<mapsto> 0]\<rparr>)
   \<and> dom [addrA \<mapsto> (0::nat)] \<subseteq> dom (hosts smOne)"
proof -
  let ?es = "[EvAdd addrA, EvSetScrapeMetric ''sessions'', EvStart [(addrA, 0)],
            EvScrapeLoopBody 0 \<lparr>response = GetOK [(''sessions'', gaugeFamily (Fin 5))] False,
                                  updateTime = 2000, checkTime = 3000\<rparr>]"
  have r5: "round32 5 = Fin 5" by code_simp
  have run: "run ?es NewSessionManager
       = Inr (smOne\<lparr>store := (store smOne)(0 := (hostWith addrA 5)\<lparr>updated := 2000\<rparr>),
                   active := [addrA \<mapsto> 0]\<rparr>)"
    by (simp add: smOne_def Add_def NewSessionManager_def ScrapeLoopBody_def Scrape_def
          getMetricValue_def gaugeFamily_def Update_def r5 hostWith_def Unix00_def
          Active_def Since_def Seconds_def DefaultTimeoutSeconds_def)
  have al: "allowed ?es NewSessionManager"
    by (simp add: Add_def NewSessionManager_def rangeOf_def ScrapeLoopBody_def Scrape_def
          getMetricValue_def gaugeFamily_def)
  from registry_invariant [OF al run] al run show ?thesis
    by (simp add: smOne_def Add_def NewSessionManager_def)
qed






end
